theory Spec2Isabelle
  imports Main "HOL-Library.Multiset"
begin

section \<open>SQLite stores\<close>

text \<open>
  The script \<^verbatim>\<open>scripts/extract_common_compounds_db.py\<close> drives SQLite through Python's
  \<^verbatim>\<open>sqlite3\<close> module. A database file is modelled by its logical content: a catalog
  from table names to tables, each table holding the statement that created it, the
  indexes created on it, and its rows in scan order.

  A cell is NULL, an integer or a text (Python's \<^verbatim>\<open>None\<close>, \<^verbatim>\<open>int\<close>, \<^verbatim>\<open>str\<close>). A row lists
  its cells by column name; \<open>col\<close> reads a column, and a column the row does not list
  reads as NULL.
\<close>

datatype sqlval = SqlNull | SqlInt int | SqlText string

type_synonym row = "(string \<times> sqlval) list"

definition col :: "row \<Rightarrow> string \<Rightarrow> sqlval" where
  "col r c = (case map_of r c of None \<Rightarrow> SqlNull | Some v \<Rightarrow> v)"

text \<open>
  The text of a \<^verbatim>\<open>CREATE TABLE\<close> statement, as the catalog \<^verbatim>\<open>sqlite_master\<close> keeps it,
  together with what it declares that matters for inserting: the column sets under a
  \<^verbatim>\<open>PRIMARY KEY\<close> or \<^verbatim>\<open>UNIQUE\<close> clause (SQLite keeps an automatic index for each; those
  have a NULL \<^verbatim>\<open>sql\<close> in the catalog). Likewise a \<^verbatim>\<open>CREATE [UNIQUE] INDEX\<close> statement.
\<close>

datatype create_table = CreateTable (table_text: string) (table_unique: "string list list")

datatype create_index = CreateIndex (index_text: string) (index_unique: bool) (index_columns: "string list")

record table =
  sql :: create_table
  indexes :: "create_index list"
  rows :: "row list"

type_synonym database = "string \<rightharpoonup> table"

text \<open>
  Left out of the model, because the script's statements do not depend on them or because
  a copy into a table of the same schema cannot trip over them: column affinities and
  collations (values compare as they are stored, text by its bytes), \<^verbatim>\<open>NOT NULL\<close> and
  \<^verbatim>\<open>CHECK\<close> clauses (every row read from the source already passes them), the names of
  indexes, and foreign keys, which SQLite does not enforce unless a connection asks for it
  and this script never does. Table names are compared exactly.
\<close>

subsection \<open>Comparisons and uniqueness\<close>

text \<open>
  A \<^verbatim>\<open>WHERE\<close> or \<^verbatim>\<open>ON\<close> clause keeps a row when its condition is true; a comparison with
  NULL is NULL, which is not true. \<open>sql_eq\<close> and \<open>sql_in\<close> say when \<^verbatim>\<open>a = b\<close> and
  \<^verbatim>\<open>a IN (v1, ..., vn)\<close> are true.
\<close>

definition sql_eq :: "sqlval \<Rightarrow> sqlval \<Rightarrow> bool" where
  "sql_eq a b \<longleftrightarrow> a \<noteq> SqlNull \<and> b \<noteq> SqlNull \<and> a = b"

definition sql_in :: "sqlval \<Rightarrow> sqlval list \<Rightarrow> bool" where
  "sql_in a vs \<longleftrightarrow> list_ex (sql_eq a) vs"

text \<open>
  The column sets of a table on which no two rows may agree: those its
  \<^verbatim>\<open>CREATE TABLE\<close> declares and those of its unique indexes. NULLs never collide.
\<close>

definition uniques :: "table \<Rightarrow> string list list" where
  "uniques t = table_unique (sql t) @ map index_columns (filter index_unique (indexes t))"

definition conflicts_on :: "string list \<Rightarrow> row \<Rightarrow> row \<Rightarrow> bool" where
  "conflicts_on u r r' \<longleftrightarrow> u \<noteq> [] \<and> list_all (\<lambda>c. sql_eq (col r c) (col r' c)) u"

definition violates :: "string list list \<Rightarrow> row list \<Rightarrow> row \<Rightarrow> bool" where
  "violates us existing r \<longleftrightarrow> list_ex (\<lambda>u. list_ex (conflicts_on u r) existing) us"

text \<open>A stored table satisfies its own uniqueness constraints.\<close>

fun consistent :: "string list list \<Rightarrow> row list \<Rightarrow> bool" where
  "consistent us [] = True"
| "consistent us (r # rs) = (\<not> violates us rs r \<and> consistent us rs)"

subsection \<open>Python exceptions and inserting\<close>

datatype error = OperationalError | IntegrityError

text \<open>
  \<^verbatim>\<open>INSERT INTO t SELECT ...\<close> adds the selected rows one by one. A row that collides with
  a row already in the table (or added earlier by the same statement) raises
  \<^verbatim>\<open>IntegrityError\<close>; under \<^verbatim>\<open>INSERT OR IGNORE\<close> it is skipped instead.
\<close>

fun insert_rows :: "bool \<Rightarrow> string list list \<Rightarrow> row list \<Rightarrow> row list \<Rightarrow> error + row list" where
  "insert_rows or_ignore us existing [] = Inr existing"
| "insert_rows or_ignore us existing (r # rs) =
     (if violates us existing r
      then (if or_ignore then insert_rows or_ignore us existing rs else Inl IntegrityError)
      else insert_rows or_ignore us (existing @ [r]) rs)"

section \<open>The process: files, the connection, the console\<close>

text \<open>
  The world outside a run: the two files at the fixed paths \<^verbatim>\<open>SOURCE_DB\<close> and
  \<^verbatim>\<open>OUTPUT_DB\<close> (\<open>None\<close>: no file there), with the content committed to them, and the
  largest number of \<^verbatim>\<open>?\<close> parameters a statement may carry in the SQLite library at
  hand (\<^verbatim>\<open>SQLITE_MAX_VARIABLE_NUMBER\<close>).
\<close>

record world =
  source_file :: "database option"
  output_file :: "database option"
  variable_limit :: nat

datatype message =
    SourceNotFound
  | NoCompoundsFound
  | Found nat
  | Written
  | Summary nat nat nat

text \<open>
  During a run the state adds the console and the connection \<^verbatim>\<open>conn_dst\<close>: the content
  of its \<^verbatim>\<open>main\<close> database and of the database attached as \<^verbatim>\<open>src\<close>, both as the
  connection sees them (uncommitted changes included), and whether a transaction is open.
\<close>

record state = world +
  stdout :: "message list"
  main_db :: database
  src_db :: "database option"
  in_transaction :: bool

text \<open>A raised exception carries the state at the moment it is raised.\<close>

type_synonym result = "(error \<times> state) + state"

definition and_then :: "result \<Rightarrow> (state \<Rightarrow> result) \<Rightarrow> result" where
  "and_then r f = (case r of Inl x \<Rightarrow> Inl x | Inr s \<Rightarrow> f s)"

definition query :: "(state \<Rightarrow> error + 'a) \<Rightarrow> state \<Rightarrow> ('a \<Rightarrow> result) \<Rightarrow> result" where
  "query q s k = (case q s of Inl e \<Rightarrow> Inl (e, s) | Inr v \<Rightarrow> k v)"

definition print :: "message \<Rightarrow> state \<Rightarrow> state" where
  "print m s = s\<lparr>stdout := stdout s @ [m]\<rparr>"

subsection \<open>Opening, attaching, committing\<close>

text \<open>\<^verbatim>\<open>sqlite3.connect(path)\<close> opens the file at the path and creates an empty one when
  there is none.\<close>

definition open_file :: "database option \<Rightarrow> database" where
  "open_file f = (case f of None \<Rightarrow> Map.empty | Some d \<Rightarrow> d)"

definition connect_output :: "world \<Rightarrow> state" where
  "connect_output w =
     \<lparr>source_file = source_file w,
      output_file = Some (open_file (output_file w)),
      variable_limit = variable_limit w,
      stdout = [],
      main_db = open_file (output_file w),
      src_db = None,
      in_transaction = False\<rparr>"

text \<open>The second connection, \<^verbatim>\<open>conn_src\<close>, is only ever read: it is the content of the
  source file.\<close>

definition connect_source :: "state \<Rightarrow> state \<times> database" where
  "connect_source s =
     (s\<lparr>source_file := Some (open_file (source_file s))\<rparr>, open_file (source_file s))"

text \<open>Writing the connection's view to the files: the main database and, when one is
  attached, the attached one.\<close>

definition write_files :: "state \<Rightarrow> state" where
  "write_files s =
     s\<lparr>output_file := Some (main_db s),
       source_file := (case src_db s of None \<Rightarrow> source_file s | Some d \<Rightarrow> Some d)\<rparr>"

definition commit :: "state \<Rightarrow> state" where
  "commit s = (if in_transaction s then (write_files s)\<lparr>in_transaction := False\<rparr> else s)"

text \<open>A statement run outside a transaction is committed at once.\<close>

definition autocommit :: "state \<Rightarrow> state" where
  "autocommit s = (if in_transaction s then s else write_files s)"

definition attach :: "state \<Rightarrow> result" where
  "attach s =
     (if in_transaction s \<or> src_db s \<noteq> None then Inl (OperationalError, s)
      else Inr (s\<lparr>src_db := Some (open_file (source_file s))\<rparr>))"

definition detach :: "state \<Rightarrow> result" where
  "detach s =
     (if in_transaction s \<or> src_db s = None then Inl (OperationalError, s)
      else Inr (s\<lparr>src_db := None\<rparr>))"

text \<open>\<^verbatim>\<open>conn_dst.close()\<close> drops the connection; what was not committed is lost.\<close>

definition close :: "state \<Rightarrow> world" where
  "close s =
     \<lparr>source_file = source_file s, output_file = output_file s,
      variable_limit = variable_limit s\<rparr>"

subsection \<open>Naming tables\<close>

text \<open>
  \<^verbatim>\<open>src.t\<close> names table \<open>t\<close> of the attached database. An unqualified \<open>t\<close> is looked up
  in \<^verbatim>\<open>main\<close> first and in the attached database after that.
\<close>

datatype schema = InMain | InSrc

definition src_table :: "state \<Rightarrow> string \<Rightarrow> error + table" where
  "src_table s name =
     (case src_db s of
        None \<Rightarrow> Inl OperationalError
      | Some d \<Rightarrow> (case d name of None \<Rightarrow> Inl OperationalError | Some t \<Rightarrow> Inr t))"

definition resolve :: "state \<Rightarrow> string \<Rightarrow> (schema \<times> table) option" where
  "resolve s name =
     (case main_db s name of
        Some t \<Rightarrow> Some (InMain, t)
      | None \<Rightarrow>
          (case src_db s of
             None \<Rightarrow> None
           | Some d \<Rightarrow> (case d name of None \<Rightarrow> None | Some t \<Rightarrow> Some (InSrc, t))))"

fun store :: "schema \<Rightarrow> string \<Rightarrow> table \<Rightarrow> state \<Rightarrow> state" where
  "store InMain name t s = s\<lparr>main_db := (main_db s)(name \<mapsto> t)\<rparr>"
| "store InSrc name t s = s\<lparr>src_db := map_option (\<lambda>d. d(name \<mapsto> t)) (src_db s)\<rparr>"

subsection \<open>Statements\<close>

text \<open>
  A statement with more \<^verbatim>\<open>?\<close> parameters than the library allows is refused with
  \<^verbatim>\<open>OperationalError\<close> (too many SQL variables). The script writes one parameter per
  selected compound id into its \<^verbatim>\<open>IN (?,?,...)\<close> lists.
\<close>

definition with_parameters :: "nat \<Rightarrow> (state \<Rightarrow> result) \<Rightarrow> state \<Rightarrow> result" where
  "with_parameters n stmt s =
     (if variable_limit s < n then Inl (OperationalError, s) else stmt s)"

text \<open>
  Inserting selected rows into the table an unqualified name stands for. The \<^verbatim>\<open>sqlite3\<close>
  module opens a transaction before an \<^verbatim>\<open>INSERT\<close> when none is open; the rows reach
  the file only at \<open>commit\<close>.
\<close>

definition insert_into :: "bool \<Rightarrow> string \<Rightarrow> row list \<Rightarrow> state \<Rightarrow> result" where
  "insert_into or_ignore name selected s =
     (case resolve s name of
        None \<Rightarrow> Inl (OperationalError, s)
      | Some (sch, t) \<Rightarrow>
          (case insert_rows or_ignore (uniques t) (rows t) selected of
             Inl e \<Rightarrow> Inl (e, s\<lparr>in_transaction := True\<rparr>)
           | Inr rs \<Rightarrow> Inr (store sch name (t\<lparr>rows := rs\<rparr>) (s\<lparr>in_transaction := True\<rparr>))))"

text \<open>\<^verbatim>\<open>INSERT [OR IGNORE] INTO target SELECT * FROM src.source WHERE cond\<close>.\<close>

definition insert_select ::
    "bool \<Rightarrow> string \<Rightarrow> string \<Rightarrow> (row \<Rightarrow> bool) \<Rightarrow> state \<Rightarrow> result" where
  "insert_select or_ignore target source cond s =
     (case src_table s source of
        Inl e \<Rightarrow> Inl (e, s)
      | Inr t \<Rightarrow> insert_into or_ignore target (filter cond (rows t)) s)"

text \<open>\<^verbatim>\<open>conn_dst.execute(schema)\<close> for the text of a \<^verbatim>\<open>CREATE TABLE name ...\<close>: the new
  table goes to \<^verbatim>\<open>main\<close>, which must not have one of that name.\<close>

definition execute_create_table :: "string \<Rightarrow> create_table \<Rightarrow> state \<Rightarrow> result" where
  "execute_create_table name schema s =
     (if name \<in> dom (main_db s) then Inl (OperationalError, s)
      else Inr (autocommit
        (s\<lparr>main_db := (main_db s)(name \<mapsto> \<lparr>sql = schema, indexes = [], rows = []\<rparr>)\<rparr>)))"

text \<open>\<^verbatim>\<open>conn_dst.execute(idx_sql)\<close> for the text of a \<^verbatim>\<open>CREATE [UNIQUE] INDEX ... ON name\<close>.
  A unique index is refused when the rows at hand already collide on its columns.\<close>

definition execute_create_index :: "string \<Rightarrow> create_index \<Rightarrow> state \<Rightarrow> result" where
  "execute_create_index name idx_sql s =
     (case resolve s name of
        None \<Rightarrow> Inl (OperationalError, s)
      | Some (sch, t) \<Rightarrow>
          if index_unique idx_sql \<and> \<not> consistent [index_columns idx_sql] (rows t)
          then Inl (IntegrityError, s)
          else Inr (autocommit (store sch name (t\<lparr>indexes := indexes t @ [idx_sql]\<rparr>) s)))"

text \<open>\<^verbatim>\<open>SELECT COUNT(*) FROM name\<close>.\<close>

definition count_rows :: "string \<Rightarrow> state \<Rightarrow> error + nat" where
  "count_rows name s =
     (case resolve s name of
        None \<Rightarrow> Inl OperationalError
      | Some (sch, t) \<Rightarrow> Inr (length (rows t)))"

section \<open>The script\<close>

definition TARGET_DATABASE_NAME :: string where
  "TARGET_DATABASE_NAME = ''Common Compounds''"

definition is_target :: "row \<Rightarrow> bool" where
  "is_target r \<longleftrightarrow> sql_eq (col r ''database_name'') (SqlText TARGET_DATABASE_NAME)"

text \<open>\<^verbatim>\<open>get_schema\<close> and \<^verbatim>\<open>get_index_sql\<close> read the catalog of the source through
  \<^verbatim>\<open>conn_src\<close>. The text of a table's \<^verbatim>\<open>CREATE TABLE\<close> is never empty, so
  \<^verbatim>\<open>not schema\<close> is the case of no such table. The automatic indexes have a NULL text
  and are left out; they come back with the \<^verbatim>\<open>CREATE TABLE\<close> itself.\<close>

definition get_schema :: "database \<Rightarrow> string \<Rightarrow> create_table option" where
  "get_schema conn name = map_option sql (conn name)"

definition get_index_sql :: "database \<Rightarrow> string \<Rightarrow> create_index list" where
  "get_index_sql conn name = (case conn name of None \<Rightarrow> [] | Some t \<Rightarrow> indexes t)"

fun create_indexes :: "string \<Rightarrow> create_index list \<Rightarrow> state \<Rightarrow> result" where
  "create_indexes name [] s = Inr s"
| "create_indexes name (idx_sql # rest) s =
     and_then (execute_create_index name idx_sql s) (create_indexes name rest)"

definition copy_table_schema :: "database \<Rightarrow> string \<Rightarrow> state \<Rightarrow> result" where
  "copy_table_schema conn_src name s =
     (case get_schema conn_src name of
        None \<Rightarrow> Inr s
      | Some schema \<Rightarrow>
          and_then (execute_create_table name schema s)
            (create_indexes name (get_index_sql conn_src name)))"

definition tables_to_copy :: "string list" where
  "tables_to_copy =
     [''spectra_databases'',
      ''common_compound_categories'',
      ''solar_spectra'',
      ''compounds_absorptions_backup'',
      ''compounds_absorptions'',
      ''compound_absorption_normalized_status'',
      ''compounds_emissions_backup'',
      ''compounds_emissions'',
      ''compound_emission_normalized_status'',
      ''compounds'']"

fun copy_schemas :: "database \<Rightarrow> string list \<Rightarrow> state \<Rightarrow> result" where
  "copy_schemas conn_src [] s = Inr s"
| "copy_schemas conn_src (name # rest) s =
     and_then (copy_table_schema conn_src name s) (copy_schemas conn_src rest)"

text \<open>Step 1: \<^verbatim>\<open>SELECT id FROM src.compounds WHERE database_name = ?\<close>.\<close>

definition select_compound_ids :: "state \<Rightarrow> error + sqlval list" where
  "select_compound_ids s =
     (case src_table s ''compounds'' of
        Inl e \<Rightarrow> Inl e
      | Inr t \<Rightarrow> Inr (map (\<lambda>r. col r ''id'') (filter is_target (rows t))))"

text \<open>\<^verbatim>\<open>SELECT DISTINCT database_id FROM src.compounds WHERE database_name = ? AND
  database_id IS NOT NULL\<close>.\<close>

definition select_database_ids :: "state \<Rightarrow> error + sqlval list" where
  "select_database_ids s =
     (case src_table s ''compounds'' of
        Inl e \<Rightarrow> Inl e
      | Inr t \<Rightarrow>
          Inr (remdups (map (\<lambda>r. col r ''database_id'')
                 (filter (\<lambda>r. is_target r \<and> col r ''database_id'' \<noteq> SqlNull) (rows t)))))"

fun copy_databases_by_id :: "sqlval list \<Rightarrow> state \<Rightarrow> result" where
  "copy_databases_by_id [] s = Inr s"
| "copy_databases_by_id (did # rest) s =
     and_then
       (insert_select True ''spectra_databases'' ''spectra_databases''
          (\<lambda>r. sql_eq (col r ''id'') did) s)
       (copy_databases_by_id rest)"

definition copy_spectra_databases :: "state \<Rightarrow> result" where
  "copy_spectra_databases s =
     and_then
       (insert_select True ''spectra_databases'' ''spectra_databases''
          (\<lambda>r. sql_eq (col r ''name'') (SqlText TARGET_DATABASE_NAME)) s)
       (\<lambda>s. query select_database_ids s (\<lambda>dids. copy_databases_by_id dids s))"

text \<open>\<^verbatim>\<open>SELECT DISTINCT c.* FROM src.common_compound_categories c INNER JOIN src.compounds
  comp ON comp.category_id = c.id WHERE comp.id IN (...)\<close>.\<close>

definition join_categories :: "sqlval list \<Rightarrow> row list \<Rightarrow> row list \<Rightarrow> row list" where
  "join_categories compound_ids cats comps =
     remdups
       (concat (map (\<lambda>c. map (\<lambda>comp. c)
          (filter (\<lambda>comp. sql_eq (col comp ''category_id'') (col c ''id'')
                         \<and> sql_in (col comp ''id'') compound_ids)
             comps))
          cats))"

definition select_categories :: "sqlval list \<Rightarrow> state \<Rightarrow> error + row list" where
  "select_categories compound_ids s =
     (case src_table s ''common_compound_categories'' of
        Inl e \<Rightarrow> Inl e
      | Inr cats \<Rightarrow>
          (case src_table s ''compounds'' of
             Inl e \<Rightarrow> Inl e
           | Inr comps \<Rightarrow> Inr (join_categories compound_ids (rows cats) (rows comps))))"

definition copy_categories :: "sqlval list \<Rightarrow> state \<Rightarrow> result" where
  "copy_categories compound_ids s =
     with_parameters (length compound_ids)
       (\<lambda>s. query (select_categories compound_ids) s
          (\<lambda>selected. insert_into True ''common_compound_categories'' selected s)) s"

definition copy_solar_spectra :: "state \<Rightarrow> result" where
  "copy_solar_spectra s = insert_select True ''solar_spectra'' ''solar_spectra'' (\<lambda>r. True) s"

definition copy_compounds :: "sqlval list \<Rightarrow> state \<Rightarrow> result" where
  "copy_compounds compound_ids s =
     with_parameters (length compound_ids)
       (insert_select False ''compounds'' ''compounds''
          (\<lambda>r. sql_in (col r ''id'') compound_ids)) s"

text \<open>\<^verbatim>\<open>INSERT INTO {table} SELECT * FROM src.{table} WHERE compound_id IN (...)\<close>.\<close>

definition copy_linked :: "sqlval list \<Rightarrow> string \<Rightarrow> state \<Rightarrow> result" where
  "copy_linked compound_ids name s =
     with_parameters (length compound_ids)
       (insert_select False name name
          (\<lambda>r. sql_in (col r ''compound_id'') compound_ids)) s"

fun copy_linked_tables :: "sqlval list \<Rightarrow> string list \<Rightarrow> state \<Rightarrow> result" where
  "copy_linked_tables compound_ids [] s = Inr s"
| "copy_linked_tables compound_ids (name # rest) s =
     and_then (copy_linked compound_ids name s) (copy_linked_tables compound_ids rest)"

definition linked_tables :: "string list" where
  "linked_tables =
     [''compounds_absorptions'',
      ''compounds_emissions'',
      ''compound_absorption_normalized_status'',
      ''compound_emission_normalized_status'']"

text \<open>Step 3 of the script: the data, from \<^verbatim>\<open>src.*\<close> into \<^verbatim>\<open>main.*\<close>.\<close>

definition copy_data :: "sqlval list \<Rightarrow> state \<Rightarrow> result" where
  "copy_data compound_ids s =
     and_then (copy_spectra_databases s) (\<lambda>s.
     and_then (copy_categories compound_ids s) (\<lambda>s.
     and_then (copy_solar_spectra s) (\<lambda>s.
     and_then (copy_compounds compound_ids s) (\<lambda>s.
     and_then (copy_linked_tables compound_ids linked_tables s) (\<lambda>s.
     and_then (copy_linked compound_ids ''compounds_absorptions_backup'' s) (\<lambda>s.
     copy_linked compound_ids ''compounds_emissions_backup'' s))))))"

text \<open>After the commit: detach, report, count.\<close>

definition summary :: "state \<Rightarrow> result" where
  "summary s =
     query (count_rows ''compounds'') s (\<lambda>n_comp.
     query (count_rows ''compounds_absorptions'') s (\<lambda>n_abs.
     query (count_rows ''compounds_emissions'') s (\<lambda>n_em.
     Inr (print (Summary n_comp n_abs n_em) s))))"

text \<open>The body of the \<^verbatim>\<open>try\<close> block.\<close>

definition extraction :: "state \<Rightarrow> result" where
  "extraction s =
     and_then (attach s) (\<lambda>s.
     query select_compound_ids s (\<lambda>compound_ids.
       if compound_ids = [] then Inr (print NoCompoundsFound s)
       else
         (case connect_source (print (Found (length compound_ids)) s) of
            (s, conn_src) \<Rightarrow>
              and_then (copy_schemas conn_src tables_to_copy s) (\<lambda>s.
              and_then (copy_data compound_ids s) (\<lambda>s.
              and_then (detach (commit s)) (\<lambda>s.
              summary (print Written s)))))))"

datatype outcome = Returned | Raised error

text \<open>\<^verbatim>\<open>main()\<close>: what it printed, how it ended, and the files it leaves.\<close>

definition main :: "world \<Rightarrow> outcome \<times> message list \<times> world" where
  "main w =
     (if source_file w = None then (Returned, [SourceNotFound], w)
      else
        (case extraction (connect_output
                (if output_file w \<noteq> None then w\<lparr>output_file := None\<rparr> else w)) of
           Inl (e, s) \<Rightarrow> (Raised e, stdout s, close s)
         | Inr s \<Rightarrow> (Returned, stdout s, close s)))"

section \<open>Notions for stating the properties\<close>

text \<open>The rows of a table of a file; none when the file or the table is not there.\<close>

definition table_rows :: "database option \<Rightarrow> string \<Rightarrow> row list" where
  "table_rows f name =
     (case f of None \<Rightarrow> [] | Some d \<Rightarrow> (case d name of None \<Rightarrow> [] | Some t \<Rightarrow> rows t))"



section \<open>Notions for the proofs\<close>

text \<open>The rows of a table of \<^verbatim>\<open>main\<close>, as the connection sees them.\<close>

definition rows_of :: "state \<Rightarrow> string \<Rightarrow> row list" where
  "rows_of s name = table_rows (Some (main_db s)) name"

text \<open>The catalog of a source restricted to some table names, every table emptied.\<close>

definition blank_copy :: "database \<Rightarrow> string set \<Rightarrow> database" where
  "blank_copy conn X =
     (\<lambda>name. if name \<in> X then map_option (\<lambda>t. t\<lparr>rows := []\<rparr>) (conn name) else None)"

text \<open>The ids step 1 of the script selects from a source.\<close>

definition selected_ids :: "database \<Rightarrow> sqlval list" where
  "selected_ids d =
     (case d ''compounds'' of
        None \<Rightarrow> []
      | Some t \<Rightarrow> map (\<lambda>r. col r ''id'') (filter is_target (rows t)))"

text \<open>The state once the fresh output is opened and the source attached.\<close>

definition attached :: "world \<Rightarrow> database \<Rightarrow> state" where
  "attached w d =
     \<lparr>source_file = Some d,
      output_file = Some Map.empty,
      variable_limit = variable_limit w,
      stdout = [],
      main_db = Map.empty,
      src_db = Some d,
      in_transaction = False\<rparr>"

text \<open>The state once the schema is replicated: empty tables, written to the output file,
  and no transaction open yet.\<close>

definition staged :: "world \<Rightarrow> database \<Rightarrow> state" where
  "staged w d =
     \<lparr>source_file = Some d,
      output_file = Some (blank_copy d (set tables_to_copy)),
      variable_limit = variable_limit w,
      stdout = [Found (length (selected_ids d))],
      main_db = blank_copy d (set tables_to_copy),
      src_db = Some d,
      in_transaction = False\<rparr>"

text \<open>Outside a transaction: everything written, the attached database as on file.\<close>

definition synced :: "database \<Rightarrow> state \<Rightarrow> bool" where
  "synced d s \<longleftrightarrow>
     source_file s = Some d \<and> src_db s = Some d \<and> \<not> in_transaction s \<and>
     output_file s = Some (main_db s)"

text \<open>What replicating the schema leaves alone.\<close>

definition same_frame :: "state \<Rightarrow> state \<Rightarrow> bool" where
  "same_frame s s' \<longleftrightarrow>
     source_file s' = source_file s \<and> variable_limit s' = variable_limit s \<and>
     src_db s' = src_db s \<and> stdout s' = stdout s"

text \<open>What a statement inside the transaction leaves alone: the files and the attached
  database; only \<^verbatim>\<open>main\<close> and the transaction flag may differ.\<close>

definition quiet :: "state \<Rightarrow> state \<Rightarrow> bool" where
  "quiet s s' \<longleftrightarrow>
     source_file s' = source_file s \<and> output_file s' = output_file s \<and>
     variable_limit s' = variable_limit s \<and> src_db s' = src_db s \<and> stdout s' = stdout s"

text \<open>Inside the transaction \<^verbatim>\<open>main\<close> has the tables of the source that the script names,
  with their schema, and the attached database is the source.\<close>

definition shaped :: "database \<Rightarrow> state \<Rightarrow> bool" where
  "shaped d s \<longleftrightarrow>
     src_db s = Some d \<and>
     (\<forall>n. map_option (\<lambda>t. t\<lparr>rows := []\<rparr>) (main_db s n) = blank_copy d (set tables_to_copy) n)"

text \<open>The outcome of a statement inside the transaction, raised or not.\<close>

definition safe :: "database \<Rightarrow> state \<Rightarrow> result \<Rightarrow> bool" where
  "safe d s r \<longleftrightarrow>
     (case r of Inl (e, s') \<Rightarrow> quiet s s' | Inr s' \<Rightarrow> quiet s s' \<and> shaped d s')"

text \<open>The rows of \<^verbatim>\<open>main\<close> once the data copy has ended well.\<close>

definition filled :: "database \<Rightarrow> sqlval list \<Rightarrow> state \<Rightarrow> bool" where
  "filled d ids s' \<longleftrightarrow>
     (\<exists>comps. d ''compounds'' = Some comps \<and>
        rows_of s' ''compounds'' = filter (\<lambda>r. sql_in (col r ''id'') ids) (rows comps) \<and>
        (\<exists>cats. d ''common_compound_categories'' = Some cats \<and>
           insert_rows True (uniques cats) [] (join_categories ids (rows cats) (rows comps)) =
             Inr (rows_of s' ''common_compound_categories'')) \<and>
        (\<exists>dbs. d ''spectra_databases'' = Some dbs \<and>
           (consistent (uniques dbs) (rows dbs) \<longrightarrow>
              set (rows_of s' ''spectra_databases'') =
                {b \<in> set (rows dbs). sql_eq (col b ''name'') (SqlText TARGET_DATABASE_NAME) \<or>
                   (\<exists>c\<in>set (rows comps). is_target c \<and>
                      sql_eq (col b ''id'') (col c ''database_id''))}))) \<and>
     (\<exists>solar. d ''solar_spectra'' = Some solar \<and>
        insert_rows True (uniques solar) [] (rows solar) = Inr (rows_of s' ''solar_spectra'')) \<and>
     (\<forall>n\<in>set linked_tables \<union> {''compounds_absorptions_backup'', ''compounds_emissions_backup''}.
        \<exists>t. d n = Some t \<and>
          rows_of s' n = filter (\<lambda>r. sql_in (col r ''compound_id'') ids) (rows t))"

section \<open>Sample stores\<close>

text \<open>A table without indexes of its own, with the column sets its \<^verbatim>\<open>CREATE TABLE\<close>
  declares unique.\<close>

definition plain_table :: "string list list \<Rightarrow> row list \<Rightarrow> table" where
  "plain_table us rs = \<lparr>sql = CreateTable ''...'' us, indexes = [], rows = rs\<rparr>"

text \<open>A source with three compounds, two of them common compounds, and rows in every
  table; one emission row belongs to no compound.\<close>

definition sample_source :: database where
  "sample_source =
     [''compounds'' \<mapsto> plain_table [[''id'']]
        [[(''id'', SqlText ''c1''), (''database_name'', SqlText ''Common Compounds''),
          (''database_id'', SqlInt 1), (''category_id'', SqlInt 10)],
         [(''id'', SqlText ''c2''), (''database_name'', SqlText ''Other''),
          (''database_id'', SqlInt 2), (''category_id'', SqlInt 11)],
         [(''id'', SqlText ''c3''), (''database_name'', SqlText ''Common Compounds''),
          (''database_id'', SqlNull), (''category_id'', SqlInt 10)]],
      ''spectra_databases'' \<mapsto> plain_table [[''id'']]
        [[(''id'', SqlInt 1), (''name'', SqlText ''Common Compounds'')],
         [(''id'', SqlInt 2), (''name'', SqlText ''Other'')]],
      ''common_compound_categories'' \<mapsto> plain_table [[''id'']]
        [[(''id'', SqlInt 10)], [(''id'', SqlInt 11)]],
      ''solar_spectra'' \<mapsto> plain_table []
        [[(''wavelength'', SqlInt 300)], [(''wavelength'', SqlInt 301)]],
      ''compounds_absorptions'' \<mapsto> plain_table []
        [[(''compound_id'', SqlText ''c1''), (''wavelength'', SqlInt 250)],
         [(''compound_id'', SqlText ''c2''), (''wavelength'', SqlInt 251)]],
      ''compounds_emissions'' \<mapsto> plain_table []
        [[(''compound_id'', SqlText ''c3''), (''wavelength'', SqlInt 400)],
         [(''compound_id'', SqlNull), (''wavelength'', SqlInt 401)]],
      ''compound_absorption_normalized_status'' \<mapsto> plain_table [[''compound_id'']]
        [[(''compound_id'', SqlText ''c1'')]],
      ''compound_emission_normalized_status'' \<mapsto> plain_table [[''compound_id'']]
        [[(''compound_id'', SqlText ''c2'')]],
      ''compounds_absorptions_backup'' \<mapsto> plain_table [] [],
      ''compounds_emissions_backup'' \<mapsto> plain_table []
        [[(''compound_id'', SqlText ''c1'')]]]"

definition sample_world :: world where
  "sample_world = \<lparr>source_file = Some sample_source, output_file = None, variable_limit = 999\<rparr>"

text \<open>No source file, and an output file left by an earlier run.\<close>

definition no_source_world :: world where
  "no_source_world = \<lparr>source_file = None, output_file = Some sample_source, variable_limit = 999\<rparr>"

text \<open>A source without any common compound.\<close>

definition unselected_source :: database where
  "unselected_source =
     [''compounds'' \<mapsto> plain_table [[''id'']]
        [[(''id'', SqlText ''c2''), (''database_name'', SqlText ''Other''),
          (''database_id'', SqlInt 2), (''category_id'', SqlInt 11)],
         [(''id'', SqlText ''c4''), (''database_name'', SqlNull),
          (''database_id'', SqlNull), (''category_id'', SqlNull)]]]"

definition unselected_world :: world where
  "unselected_world =
     \<lparr>source_file = Some unselected_source, output_file = Some sample_source,
      variable_limit = 999\<rparr>"





section \<open>Properties of the statements\<close>

text \<open>What a statement outside a transaction leaves alone, with everything written.\<close>

lemma and_then_Inr [simp]: "and_then (Inr s) f = f s"
  by (simp add: and_then_def)

lemma and_then_Inl [simp]: "and_then (Inl x) f = Inl x"
  by (simp add: and_then_def)

lemma same_frame_refl [simp]: "same_frame s s"
  by (simp add: same_frame_def)

lemma same_frame_trans: "same_frame s s' \<Longrightarrow> same_frame s' s'' \<Longrightarrow> same_frame s s''"
  by (simp add: same_frame_def)

lemma execute_create_index_synced:
  assumes "synced d s" "main_db s name = Some t" "rows t = []"
  shows "\<exists>s'. execute_create_index name i s = Inr s' \<and> synced d s' \<and> same_frame s s' \<and>
     main_db s' = (main_db s)(name \<mapsto> t\<lparr>indexes := indexes t @ [i]\<rparr>)"
  using assms
  by (simp add: execute_create_index_def resolve_def autocommit_def write_files_def
      synced_def same_frame_def)

lemma create_indexes_synced:
  assumes "synced d s" "main_db s name = Some t" "rows t = []"
  shows "\<exists>s'. create_indexes name idxs s = Inr s' \<and> synced d s' \<and> same_frame s s' \<and>
     main_db s' = (main_db s)(name \<mapsto> t\<lparr>indexes := indexes t @ idxs\<rparr>)"
  using assms
proof (induction idxs arbitrary: s t)
  case Nil
  then show ?case by (simp add: fun_upd_idem)
next
  case (Cons i idxs)
  let ?t = "t\<lparr>indexes := indexes t @ [i]\<rparr>"
  from execute_create_index_synced [OF Cons.prems, of i]
  obtain s1 where s1: "execute_create_index name i s = Inr s1" "synced d s1" "same_frame s s1"
    "main_db s1 = (main_db s)(name \<mapsto> ?t)"
    by blast
  have "main_db s1 name = Some ?t" "rows ?t = []"
    using s1(4) Cons.prems(3) by simp_all
  from Cons.IH [OF s1(2) this]
  obtain s2 where s2: "create_indexes name idxs s1 = Inr s2" "synced d s2" "same_frame s1 s2"
    "main_db s2 = (main_db s1)(name \<mapsto> ?t\<lparr>indexes := indexes ?t @ idxs\<rparr>)"
    by blast
  show ?case
    using s1 s2 by (auto simp add: same_frame_def)
qed

lemma execute_create_table_synced:
  assumes "synced d s" "main_db s name = None"
  shows "\<exists>s'. execute_create_table name schema s = Inr s' \<and> synced d s' \<and> same_frame s s' \<and>
     main_db s' = (main_db s)(name \<mapsto> \<lparr>sql = schema, indexes = [], rows = []\<rparr>)"
  using assms
  by (simp add: execute_create_table_def autocommit_def write_files_def synced_def
      same_frame_def domIff)

lemma copy_table_schema_synced:
  assumes "synced d s" "main_db s name = None"
  shows "\<exists>s'. copy_table_schema conn name s = Inr s' \<and> synced d s' \<and> same_frame s s' \<and>
     main_db s' =
       (case conn name of None \<Rightarrow> main_db s | Some t \<Rightarrow> (main_db s)(name \<mapsto> t\<lparr>rows := []\<rparr>))"
proof (cases "conn name")
  case None
  then show ?thesis
    using assms by (simp add: copy_table_schema_def get_schema_def)
next
  case (Some t)
  let ?t0 = "\<lparr>sql = sql t, indexes = [], rows = []\<rparr>"
  from execute_create_table_synced [OF assms, of "sql t"]
  obtain s1 where s1: "execute_create_table name (sql t) s = Inr s1" "synced d s1"
    "same_frame s s1" "main_db s1 = (main_db s)(name \<mapsto> ?t0)"
    by blast
  have "main_db s1 name = Some ?t0" "rows ?t0 = []"
    using s1(4) by simp_all
  from create_indexes_synced [OF s1(2) this, of "indexes t"]
  obtain s2 where s2: "create_indexes name (indexes t) s1 = Inr s2" "synced d s2"
    "same_frame s1 s2"
    "main_db s2 = (main_db s1)(name \<mapsto> ?t0\<lparr>indexes := indexes ?t0 @ indexes t\<rparr>)"
    by blast
  have "?t0\<lparr>indexes := indexes ?t0 @ indexes t\<rparr> = t\<lparr>rows := []\<rparr>"
    by simp
  then show ?thesis
    using Some s1 s2
    by (auto simp add: copy_table_schema_def get_schema_def get_index_sql_def
        same_frame_def)
qed

lemma blank_copy_insert:
  "(case conn name of None \<Rightarrow> blank_copy conn X
    | Some t \<Rightarrow> (blank_copy conn X)(name \<mapsto> t\<lparr>rows := []\<rparr>)) = blank_copy conn (insert name X)"
  by (auto simp add: blank_copy_def fun_eq_iff split: option.splits)

lemma copy_schemas_synced:
  assumes "synced d s" "distinct names" "set names \<inter> X = {}" "main_db s = blank_copy conn X"
  shows "\<exists>s'. copy_schemas conn names s = Inr s' \<and> synced d s' \<and> same_frame s s' \<and>
     main_db s' = blank_copy conn (X \<union> set names)"
  using assms
proof (induction names arbitrary: s X)
  case Nil
  then show ?case by simp
next
  case (Cons name names)
  have free: "main_db s name = None"
    using Cons.prems by (auto simp add: blank_copy_def)
  have eq: "(case conn name of None \<Rightarrow> main_db s
      | Some t \<Rightarrow> (main_db s)(name \<mapsto> t\<lparr>rows := []\<rparr>)) = blank_copy conn (insert name X)"
    unfolding Cons.prems(4) by (rule blank_copy_insert)
  from copy_table_schema_synced [OF Cons.prems(1) free, of conn]
  obtain s1 where s1: "copy_table_schema conn name s = Inr s1" "synced d s1" "same_frame s s1"
    "main_db s1 = blank_copy conn (insert name X)"
    unfolding eq by blast
  have "distinct names" "set names \<inter> insert name X = {}"
    using Cons.prems by auto
  from Cons.IH [OF s1(2) this s1(4)]
  obtain s2 where s2: "copy_schemas conn names s1 = Inr s2" "synced d s2" "same_frame s1 s2"
    "main_db s2 = blank_copy conn (insert name X \<union> set names)"
    by blast
  show ?case
    using s1 s2 by (auto intro: same_frame_trans)
qed

section \<open>insert_rows\<close>

lemma sql_eq_sym: "sql_eq a b \<longleftrightarrow> sql_eq b a"
  by (auto simp add: sql_eq_def)

lemma conflicts_on_sym: "conflicts_on u r r' \<longleftrightarrow> conflicts_on u r' r"
  by (simp add: conflicts_on_def list_all_iff sql_eq_sym [of "col r _"])

lemma violates_iff:
  "violates us existing r \<longleftrightarrow> (\<exists>u\<in>set us. \<exists>r'\<in>set existing. conflicts_on u r r')"
  by (simp add: violates_def list_ex_iff)

lemma violates_mono: "violates us xs r \<Longrightarrow> set xs \<subseteq> set ys \<Longrightarrow> violates us ys r"
  by (auto simp add: violates_iff)

lemma consistent_filter: "consistent us rs \<Longrightarrow> consistent us (filter p rs)"
  by (induction rs) (auto dest: violates_mono [where ys = "_"])

lemma consistent_unique_row:
  "consistent us rs \<Longrightarrow> r \<in> set rs \<Longrightarrow> r' \<in> set rs \<Longrightarrow> u \<in> set us \<Longrightarrow>
   conflicts_on u r r' \<Longrightarrow> r = r'"
proof (induction rs)
  case Nil
  then show ?case by simp
next
  case (Cons x rs)
  have nv: "\<not> violates us rs x" and c: "consistent us rs"
    using Cons.prems(1) by simp_all
  show ?case
  proof (cases "r = r'")
    case True
    then show ?thesis .
  next
    case False
    have "r \<in> set rs \<and> r' \<in> set rs"
    proof (rule ccontr)
      assume "\<not> (r \<in> set rs \<and> r' \<in> set rs)"
      then consider "r = x" "r' \<in> set rs" | "r' = x" "r \<in> set rs"
        using Cons.prems(2,3) False by auto
      then show False
      proof cases
        case 1
        then show False
          using nv Cons.prems(4,5) by (auto simp add: violates_iff)
      next
        case 2
        then show False
          using nv Cons.prems(4,5) conflicts_on_sym [of u r r'] by (auto simp add: violates_iff)
      qed
    qed
    then show ?thesis
      using Cons.IH c Cons.prems(4,5) by blast
  qed
qed

text \<open>Strict inserting succeeds only by adding every row.\<close>

lemma insert_rows_strict:
  "insert_rows False us existing sel = Inr rs \<Longrightarrow> rs = existing @ sel"
  by (induction sel arbitrary: existing) (fastforce split: if_splits)+

text \<open>\<^verbatim>\<open>OR IGNORE\<close> never fails, keeps what is there, and adds selected rows only.\<close>

lemma insert_rows_ignore_total: "\<exists>rs. insert_rows True us existing sel = Inr rs"
  by (induction sel arbitrary: existing) auto

lemma insert_rows_bounds:
  "insert_rows ig us existing sel = Inr rs \<Longrightarrow>
   set existing \<subseteq> set rs \<and> set rs \<subseteq> set existing \<union> set sel"
proof (induction sel arbitrary: existing)
  case Nil
  then show ?case by simp
next
  case (Cons r sel)
  show ?case
  proof (cases "violates us existing r")
    case True
    then have "insert_rows ig us existing sel = Inr rs"
      using Cons.prems by (simp split: if_splits)
    from Cons.IH [OF this] show ?thesis by auto
  next
    case False
    then have "insert_rows ig us (existing @ [r]) sel = Inr rs"
      using Cons.prems by simp
    from Cons.IH [OF this] show ?thesis by auto
  qed
qed

text \<open>Rows of one consistent table never push each other out.\<close>

lemma insert_rows_from_consistent:
  assumes "insert_rows ig us existing sel = Inr rs" "consistent us S"
    "set existing \<subseteq> set S" "set sel \<subseteq> set S"
  shows "set rs = set existing \<union> set sel"
  using assms
proof (induction sel arbitrary: existing)
  case Nil
  then show ?case by simp
next
  case (Cons r sel)
  show ?case
  proof (cases "violates us existing r")
    case True
    then obtain u r' where "u \<in> set us" "r' \<in> set existing" "conflicts_on u r r'"
      by (auto simp add: violates_iff)
    then have "r = r'"
      using consistent_unique_row [OF Cons.prems(2), of r r' u] Cons.prems(3,4) by auto
    then have r: "r \<in> set existing"
      using \<open>r' \<in> set existing\<close> by simp
    have "insert_rows ig us existing sel = Inr rs"
      using True Cons.prems(1) by (simp split: if_splits)
    from Cons.IH [OF this Cons.prems(2,3)] Cons.prems(4) r show ?thesis by auto
  next
    case False
    then have "insert_rows ig us (existing @ [r]) sel = Inr rs"
      using Cons.prems(1) by simp
    from Cons.IH [OF this Cons.prems(2)] Cons.prems(3,4) show ?thesis by auto
  qed
qed



section \<open>Statements inside the transaction\<close>

lemma quiet_refl [simp]: "quiet s s"
  by (simp add: quiet_def)

lemma quiet_trans: "quiet s s' \<Longrightarrow> quiet s' s'' \<Longrightarrow> quiet s s''"
  by (simp add: quiet_def)

lemma safe_Inl: "safe d s (Inl (e, s')) \<longleftrightarrow> quiet s s'"
  by (simp add: safe_def)

lemma safe_Inr: "safe d s (Inr s') \<longleftrightarrow> quiet s s' \<and> shaped d s'"
  by (simp add: safe_def)

lemma safe_and_then:
  assumes "safe d s (f s)" "\<And>s'. quiet s s' \<Longrightarrow> shaped d s' \<Longrightarrow> safe d s' (g s')"
  shows "safe d s (and_then (f s) g)"
proof (cases "f s")
  case (Inl x)
  then show ?thesis
    using assms(1) by simp
next
  case (Inr s')
  then have q: "quiet s s'" and sh: "shaped d s'"
    using assms(1) by (simp_all add: safe_Inr)
  from assms(2) [OF q sh] q show ?thesis
    by (auto simp add: Inr safe_def intro: quiet_trans split: sum.splits)
qed

lemma shaped_main:
  assumes "shaped d s" "n \<in> set tables_to_copy"
  shows "main_db s n = None \<longleftrightarrow> d n = None"
    and "d n = Some st \<Longrightarrow> \<exists>t. main_db s n = Some t \<and> sql t = sql st \<and> indexes t = indexes st"
proof -
  have eq: "map_option (\<lambda>t. t\<lparr>rows := []\<rparr>) (main_db s n) = map_option (\<lambda>t. t\<lparr>rows := []\<rparr>) (d n)"
    using assms by (simp add: shaped_def blank_copy_def)
  show "main_db s n = None \<longleftrightarrow> d n = None"
    using eq by (cases "main_db s n"; cases "d n") simp_all
  show "\<exists>t. main_db s n = Some t \<and> sql t = sql st \<and> indexes t = indexes st" if "d n = Some st"
  proof (cases "main_db s n")
    case None
    then show ?thesis using eq that by simp
  next
    case (Some t)
    then have "t\<lparr>rows := []\<rparr> = st\<lparr>rows := []\<rparr>"
      using eq that by simp
    then have "sql (t\<lparr>rows := []\<rparr>) = sql (st\<lparr>rows := []\<rparr>)"
      "indexes (t\<lparr>rows := []\<rparr>) = indexes (st\<lparr>rows := []\<rparr>)"
      by simp_all
    then show ?thesis
      using Some by simp
  qed
qed

lemma shaped_store:
  assumes "shaped d s" "main_db s n = Some t" "src_db s' = src_db s"
    "main_db s' = (main_db s)(n \<mapsto> t\<lparr>rows := rs\<rparr>)"
  shows "shaped d s'"
proof -
  have "map_option (\<lambda>t. t\<lparr>rows := []\<rparr>) (main_db s' m) = blank_copy d (set tables_to_copy) m" for m
  proof (cases "m = n")
    case True
    have "map_option (\<lambda>t. t\<lparr>rows := []\<rparr>) (main_db s n) = blank_copy d (set tables_to_copy) n"
      using assms(1) by (simp add: shaped_def)
    then show ?thesis
      using True assms(2,4) by simp
  next
    case False
    then show ?thesis
      using assms(1,4) by (simp add: shaped_def)
  qed
  then show ?thesis
    using assms(1,3) by (simp add: shaped_def)
qed

lemma insert_into_cases:
  assumes "shaped d s" "n \<in> set tables_to_copy"
  shows "(\<exists>e s'. insert_into ig n sel s = Inl (e, s') \<and> quiet s s') \<or>
    (\<exists>s' t st rs. insert_into ig n sel s = Inr s' \<and> quiet s s' \<and> shaped d s' \<and>
       main_db s n = Some t \<and> d n = Some st \<and> uniques t = uniques st \<and>
       insert_rows ig (uniques st) (rows t) sel = Inr rs \<and>
       main_db s' = (main_db s)(n \<mapsto> t\<lparr>rows := rs\<rparr>))"
proof (cases "d n")
  case None
  then have "main_db s n = None"
    using shaped_main(1) [OF assms] by simp
  then show ?thesis
    using None assms(1) by (simp add: insert_into_def resolve_def shaped_def)
next
  case (Some st)
  from shaped_main(2) [OF assms Some]
  obtain t where t: "main_db s n = Some t" "sql t = sql st" "indexes t = indexes st"
    by blast
  then have u: "uniques t = uniques st"
    by (simp add: uniques_def)
  show ?thesis
  proof (cases "insert_rows ig (uniques st) (rows t) sel")
    case (Inl e)
    then show ?thesis
      using t u by (simp add: insert_into_def resolve_def quiet_def)
  next
    case (Inr rs)
    have "shaped d (store InMain n (t\<lparr>rows := rs\<rparr>) (s\<lparr>in_transaction := True\<rparr>))"
      by (rule shaped_store [OF assms(1) t(1)]) simp_all
    then show ?thesis
      using t u Inr Some by (simp add: insert_into_def resolve_def quiet_def)
  qed
qed

lemma insert_into_safe:
  assumes "shaped d s" "n \<in> set tables_to_copy"
  shows "safe d s (insert_into ig n sel s)"
  using insert_into_cases [OF assms, of ig sel] by (auto simp add: safe_def)

lemma rows_of_upd:
  "main_db s' = (main_db s)(n \<mapsto> t) \<Longrightarrow> rows_of s' m = (if m = n then rows t else rows_of s m)"
  by (simp add: rows_of_def table_rows_def)

lemma insert_into_Inr:
  assumes "shaped d s" "n \<in> set tables_to_copy" "insert_into ig n sel s = Inr s'"
  shows "\<exists>st. d n = Some st \<and>
      insert_rows ig (uniques st) (rows_of s n) sel = Inr (rows_of s' n) \<and>
      (\<forall>m. m \<noteq> n \<longrightarrow> main_db s' m = main_db s m)"
  using insert_into_cases [OF assms(1,2), of ig sel] assms(3)
  by (auto simp add: rows_of_def table_rows_def)

lemma shaped_src_table:
  "shaped d s \<Longrightarrow> src_table s n = (case d n of None \<Rightarrow> Inl OperationalError | Some t \<Rightarrow> Inr t)"
  by (simp add: src_table_def shaped_def)

lemma insert_select_safe:
  assumes "shaped d s" "n \<in> set tables_to_copy"
  shows "safe d s (insert_select ig n n' cond s)"
  using insert_into_safe [OF assms]
  by (simp add: insert_select_def safe_Inl split: sum.splits)

lemma insert_select_Inr:
  assumes "shaped d s" "n \<in> set tables_to_copy" "insert_select ig n n cond s = Inr s'"
  shows "\<exists>st. d n = Some st \<and>
      insert_rows ig (uniques st) (rows_of s n) (filter cond (rows st)) = Inr (rows_of s' n) \<and>
      (\<forall>m. m \<noteq> n \<longrightarrow> main_db s' m = main_db s m)"
proof -
  obtain st where st: "d n = Some st" "insert_into ig n (filter cond (rows st)) s = Inr s'"
    using assms(3) shaped_src_table [OF assms(1), of n]
    by (auto simp add: insert_select_def split: option.splits sum.splits)
  from insert_into_Inr [OF assms(1,2) st(2)] st(1) show ?thesis
    by simp
qed

lemma with_parameters_safe:
  "safe d s (stmt s) \<Longrightarrow> safe d s (with_parameters k stmt s)"
  by (simp add: with_parameters_def safe_Inl)

lemma with_parameters_Inr:
  "with_parameters k stmt s = Inr s' \<Longrightarrow> stmt s = Inr s' \<and> k \<le> variable_limit s"
  by (simp add: with_parameters_def split: if_splits)

lemma frame_rows_of:
  "(\<forall>m. m \<noteq> n \<longrightarrow> main_db s' m = main_db s m) \<Longrightarrow> m \<noteq> n \<Longrightarrow> rows_of s' m = rows_of s m"
  by (simp add: rows_of_def table_rows_def)

lemma safe_query:
  assumes "\<And>v. q s = Inr v \<Longrightarrow> safe d s (k v)"
  shows "safe d s (query q s k)"
  using assms by (simp add: query_def safe_Inl split: sum.splits)

lemma in_tables_to_copy [simp]:
  "''spectra_databases'' \<in> set tables_to_copy"
  "''common_compound_categories'' \<in> set tables_to_copy"
  "''solar_spectra'' \<in> set tables_to_copy"
  "''compounds_absorptions_backup'' \<in> set tables_to_copy"
  "''compounds_absorptions'' \<in> set tables_to_copy"
  "''compound_absorption_normalized_status'' \<in> set tables_to_copy"
  "''compounds_emissions_backup'' \<in> set tables_to_copy"
  "''compounds_emissions'' \<in> set tables_to_copy"
  "''compound_emission_normalized_status'' \<in> set tables_to_copy"
  "''compounds'' \<in> set tables_to_copy"
  by (simp_all add: tables_to_copy_def)

lemma linked_in_tables_to_copy: "n \<in> set linked_tables \<Longrightarrow> n \<in> set tables_to_copy"
  by (auto simp add: linked_tables_def tables_to_copy_def)

subsection \<open>Safety of every phase\<close>

lemma copy_databases_by_id_safe:
  "shaped d s \<Longrightarrow> safe d s (copy_databases_by_id dids s)"
proof (induction dids arbitrary: s)
  case Nil
  then show ?case by (simp add: safe_Inr)
next
  case (Cons did dids)
  show ?case
    unfolding copy_databases_by_id.simps
    by (rule safe_and_then) (simp_all add: insert_select_safe Cons)
qed

lemma copy_spectra_databases_safe:
  assumes "shaped d s"
  shows "safe d s (copy_spectra_databases s)"
  unfolding copy_spectra_databases_def
  by (rule safe_and_then)
    (simp_all add: insert_select_safe assms safe_query copy_databases_by_id_safe)

lemma copy_categories_safe:
  assumes "shaped d s"
  shows "safe d s (copy_categories ids s)"
  unfolding copy_categories_def
  by (rule with_parameters_safe) (simp add: safe_query insert_into_safe assms)

lemma copy_solar_spectra_safe: "shaped d s \<Longrightarrow> safe d s (copy_solar_spectra s)"
  by (simp add: copy_solar_spectra_def insert_select_safe)

lemma copy_compounds_safe: "shaped d s \<Longrightarrow> safe d s (copy_compounds ids s)"
  unfolding copy_compounds_def
  by (rule with_parameters_safe) (simp add: insert_select_safe)

lemma copy_linked_safe:
  "shaped d s \<Longrightarrow> n \<in> set tables_to_copy \<Longrightarrow> safe d s (copy_linked ids n s)"
  unfolding copy_linked_def
  by (rule with_parameters_safe) (simp add: insert_select_safe)

lemma copy_linked_tables_safe:
  "shaped d s \<Longrightarrow> set names \<subseteq> set tables_to_copy \<Longrightarrow>
   safe d s (copy_linked_tables ids names s)"
proof (induction names arbitrary: s)
  case Nil
  then show ?case by (simp add: safe_Inr)
next
  case (Cons n names)
  show ?case
    unfolding copy_linked_tables.simps
    by (rule safe_and_then) (use Cons in \<open>simp_all add: copy_linked_safe\<close>)
qed

lemma copy_data_safe:
  assumes "shaped d s"
  shows "safe d s (copy_data ids s)"
  unfolding copy_data_def
  apply (rule safe_and_then, simp add: copy_spectra_databases_safe assms)
  apply (rule safe_and_then, simp add: copy_categories_safe)
  apply (rule safe_and_then, simp add: copy_solar_spectra_safe)
  apply (rule safe_and_then, simp add: copy_compounds_safe)
  apply (rule safe_and_then)
   apply (rule copy_linked_tables_safe, assumption)
   apply (auto simp add: linked_in_tables_to_copy)[1]
  apply (rule safe_and_then, simp add: copy_linked_safe)
  apply (simp add: copy_linked_safe)
  done

subsection \<open>What each phase adds when it succeeds\<close>

lemma safe_shaped: "safe d s r \<Longrightarrow> r = Inr s' \<Longrightarrow> shaped d s' \<and> quiet s s'"
  by (simp add: safe_def)

lemma insert_select_rows:
  assumes "shaped d s" "n \<in> set tables_to_copy" "insert_select ig n n cond s = Inr s'"
  shows "\<exists>st. d n = Some st \<and>
      insert_rows ig (uniques st) (rows_of s n) (filter cond (rows st)) = Inr (rows_of s' n) \<and>
      (\<forall>m. m \<noteq> n \<longrightarrow> rows_of s' m = rows_of s m)"
proof -
  from insert_select_Inr [OF assms]
  obtain st where st: "d n = Some st"
    "insert_rows ig (uniques st) (rows_of s n) (filter cond (rows st)) = Inr (rows_of s' n)"
    "\<forall>m. m \<noteq> n \<longrightarrow> main_db s' m = main_db s m"
    by blast
  have "\<forall>m. m \<noteq> n \<longrightarrow> rows_of s' m = rows_of s m"
    by (simp add: frame_rows_of [OF st(3)])
  with st(1,2) show ?thesis
    by blast
qed

lemma copy_compounds_rows:
  assumes "shaped d s" "copy_compounds ids s = Inr s'"
  shows "\<exists>st. d ''compounds'' = Some st \<and>
      rows_of s' ''compounds'' =
        rows_of s ''compounds'' @ filter (\<lambda>r. sql_in (col r ''id'') ids) (rows st) \<and>
      (\<forall>m. m \<noteq> ''compounds'' \<longrightarrow> rows_of s' m = rows_of s m)"
proof -
  have "insert_select False ''compounds'' ''compounds'' (\<lambda>r. sql_in (col r ''id'') ids) s = Inr s'"
    using with_parameters_Inr [OF assms(2) [unfolded copy_compounds_def]] by simp
  from insert_select_rows [OF assms(1) in_tables_to_copy(10) this]
  obtain st where st: "d ''compounds'' = Some st"
    "insert_rows False (uniques st) (rows_of s ''compounds'')
       (filter (\<lambda>r. sql_in (col r ''id'') ids) (rows st)) = Inr (rows_of s' ''compounds'')"
    "\<forall>m. m \<noteq> ''compounds'' \<longrightarrow> rows_of s' m = rows_of s m"
    by blast
  from insert_rows_strict [OF st(2)] st(1,3) show ?thesis
    by blast
qed

lemma copy_linked_rows:
  assumes "shaped d s" "n \<in> set tables_to_copy" "copy_linked ids n s = Inr s'"
  shows "\<exists>st. d n = Some st \<and>
      rows_of s' n = rows_of s n @ filter (\<lambda>r. sql_in (col r ''compound_id'') ids) (rows st) \<and>
      (\<forall>m. m \<noteq> n \<longrightarrow> rows_of s' m = rows_of s m)"
proof -
  have "insert_select False n n (\<lambda>r. sql_in (col r ''compound_id'') ids) s = Inr s'"
    using with_parameters_Inr [OF assms(3) [unfolded copy_linked_def]] by simp
  from insert_select_rows [OF assms(1,2) this]
  obtain st where st: "d n = Some st"
    "insert_rows False (uniques st) (rows_of s n)
       (filter (\<lambda>r. sql_in (col r ''compound_id'') ids) (rows st)) = Inr (rows_of s' n)"
    "\<forall>m. m \<noteq> n \<longrightarrow> rows_of s' m = rows_of s m"
    by blast
  from insert_rows_strict [OF st(2)] st(1,3) show ?thesis
    by blast
qed

lemma and_then_Inr_iff:
  "and_then r f = Inr s' \<longleftrightarrow> (\<exists>s1. r = Inr s1 \<and> f s1 = Inr s')"
  by (cases r) simp_all

lemma copy_linked_tables_rows:
  assumes "shaped d s" "distinct names" "set names \<subseteq> set tables_to_copy"
    "copy_linked_tables ids names s = Inr s'"
  shows "(\<forall>n\<in>set names. \<exists>st. d n = Some st \<and>
      rows_of s' n = rows_of s n @ filter (\<lambda>r. sql_in (col r ''compound_id'') ids) (rows st)) \<and>
      (\<forall>m. m \<notin> set names \<longrightarrow> rows_of s' m = rows_of s m)"
  using assms
proof (induction names arbitrary: s)
  case Nil
  then show ?case by simp
next
  case (Cons n names)
  from Cons.prems(4) obtain s1 where s1: "copy_linked ids n s = Inr s1"
    "copy_linked_tables ids names s1 = Inr s'"
    by (auto simp add: and_then_Inr_iff)
  have n: "n \<in> set tables_to_copy" "n \<notin> set names"
    using Cons.prems(2,3) by simp_all
  have sh: "shaped d s1"
    using safe_shaped [OF copy_linked_safe [OF Cons.prems(1) n(1)] s1(1)] by simp
  from copy_linked_rows [OF Cons.prems(1) n(1) s1(1)]
  obtain st where st: "d n = Some st"
    "rows_of s1 n = rows_of s n @ filter (\<lambda>r. sql_in (col r ''compound_id'') ids) (rows st)"
    "\<forall>m. m \<noteq> n \<longrightarrow> rows_of s1 m = rows_of s m"
    by blast
  have "distinct names" "set names \<subseteq> set tables_to_copy"
    using Cons.prems(2,3) by simp_all
  from Cons.IH [OF sh this s1(2)]
  have ih: "\<forall>n\<in>set names. \<exists>st. d n = Some st \<and>
      rows_of s' n = rows_of s1 n @ filter (\<lambda>r. sql_in (col r ''compound_id'') ids) (rows st)"
    "\<forall>m. m \<notin> set names \<longrightarrow> rows_of s' m = rows_of s1 m"
    by simp_all
  show ?case
  proof (intro conjI ballI allI impI)
    fix m assume "m \<in> set (n # names)"
    then show "\<exists>st. d m = Some st \<and>
      rows_of s' m = rows_of s m @ filter (\<lambda>r. sql_in (col r ''compound_id'') ids) (rows st)"
      using st ih n(2) by (cases "m = n") auto
  next
    fix m assume "m \<notin> set (n # names)"
    then show "rows_of s' m = rows_of s m"
      using st(3) ih(2) by simp
  qed
qed

lemma copy_solar_spectra_rows:
  assumes "shaped d s" "copy_solar_spectra s = Inr s'"
  shows "\<exists>st. d ''solar_spectra'' = Some st \<and>
      insert_rows True (uniques st) (rows_of s ''solar_spectra'') (rows st) =
        Inr (rows_of s' ''solar_spectra'') \<and>
      (\<forall>m. m \<noteq> ''solar_spectra'' \<longrightarrow> rows_of s' m = rows_of s m)"
  using insert_select_rows [OF assms(1), of "''solar_spectra''" True "\<lambda>r. True" s'] assms(2)
  by (simp add: copy_solar_spectra_def)


lemma copy_categories_rows:
  assumes "shaped d s" "copy_categories ids s = Inr s'"
  shows "\<exists>st comps. d ''common_compound_categories'' = Some st \<and> d ''compounds'' = Some comps \<and>
      insert_rows True (uniques st) (rows_of s ''common_compound_categories'')
        (join_categories ids (rows st) (rows comps)) =
        Inr (rows_of s' ''common_compound_categories'') \<and>
      (\<forall>m. m \<noteq> ''common_compound_categories'' \<longrightarrow> rows_of s' m = rows_of s m)"
proof -
  from assms(2) obtain sel where sel: "select_categories ids s = Inr sel"
    "insert_into True ''common_compound_categories'' sel s = Inr s'"
    by (auto simp add: copy_categories_def query_def dest!: with_parameters_Inr split: sum.splits)
  from sel(1) obtain st comps where d: "d ''common_compound_categories'' = Some st"
    "d ''compounds'' = Some comps" "sel = join_categories ids (rows st) (rows comps)"
    by (auto simp add: select_categories_def shaped_src_table [OF assms(1)]
        split: option.splits)
  from insert_into_Inr [OF assms(1) in_tables_to_copy(2) sel(2)]
  have ins: "insert_rows True (uniques st) (rows_of s ''common_compound_categories'') sel =
      Inr (rows_of s' ''common_compound_categories'')"
    and fr: "\<forall>m. m \<noteq> ''common_compound_categories'' \<longrightarrow> main_db s' m = main_db s m"
    using d(1) by auto
  have "\<forall>m. m \<noteq> ''common_compound_categories'' \<longrightarrow> rows_of s' m = rows_of s m"
    by (simp add: frame_rows_of [OF fr])
  with ins d show ?thesis
    by blast
qed

lemma store_txn: "in_transaction (store sch n t s) = in_transaction s"
  by (cases sch) simp_all

lemma query_Inr_iff: "query q s k = Inr s' \<longleftrightarrow> (\<exists>v. q s = Inr v \<and> k v = Inr s')"
  by (cases "q s") (simp_all add: query_def)

lemma insert_into_txn: "insert_into ig n sel s = Inr s' \<Longrightarrow> in_transaction s'"
  by (cases "resolve s n")
    (auto simp add: insert_into_def store_txn split: sum.splits)

lemma insert_select_txn: "insert_select ig n n' cond s = Inr s' \<Longrightarrow> in_transaction s'"
  by (auto simp add: insert_select_def split: sum.splits dest: insert_into_txn)

lemma copy_linked_txn: "copy_linked ids n s = Inr s' \<Longrightarrow> in_transaction s'"
  using with_parameters_Inr [of "length ids" _ s s']
  by (auto simp add: copy_linked_def dest: insert_select_txn)

subsection \<open>The spectra databases\<close>

lemma insert_select_ignore_set:
  assumes "shaped d s" "n \<in> set tables_to_copy" "insert_select True n n cond s = Inr s'"
    "d n = Some st" "consistent (uniques st) (rows st)" "set (rows_of s n) \<subseteq> set (rows st)"
  shows "set (rows_of s' n) = set (rows_of s n) \<union> {r \<in> set (rows st). cond r}"
proof -
  from insert_select_rows [OF assms(1,2,3)] assms(4)
  have "insert_rows True (uniques st) (rows_of s n) (filter cond (rows st)) = Inr (rows_of s' n)"
    by simp
  from insert_rows_from_consistent [OF this assms(5,6)] show ?thesis
    by auto
qed

lemma copy_databases_by_id_frame:
  assumes "shaped d s" "copy_databases_by_id dids s = Inr s'"
  shows "\<forall>m. m \<noteq> ''spectra_databases'' \<longrightarrow> rows_of s' m = rows_of s m"
  using assms
proof (induction dids arbitrary: s)
  case Nil
  then show ?case by simp
next
  case (Cons did dids)
  from Cons.prems(2) obtain s1 where s1:
    "insert_select True ''spectra_databases'' ''spectra_databases''
       (\<lambda>r. sql_eq (col r ''id'') did) s = Inr s1"
    "copy_databases_by_id dids s1 = Inr s'"
    by (auto simp add: and_then_Inr_iff)
  have sh: "shaped d s1"
    using safe_shaped [OF insert_select_safe [OF Cons.prems(1) in_tables_to_copy(1)] s1(1)]
    by simp
  from insert_select_rows [OF Cons.prems(1) in_tables_to_copy(1) s1(1)] Cons.IH [OF sh s1(2)]
  show ?case by auto
qed

lemma copy_databases_by_id_rows:
  assumes "shaped d s" "copy_databases_by_id dids s = Inr s'"
    "d ''spectra_databases'' = Some st" "consistent (uniques st) (rows st)"
    "set (rows_of s ''spectra_databases'') \<subseteq> set (rows st)"
  shows "set (rows_of s' ''spectra_databases'') =
     set (rows_of s ''spectra_databases'') \<union>
     {r \<in> set (rows st). \<exists>did\<in>set dids. sql_eq (col r ''id'') did}"
  using assms(1,2,5)
proof (induction dids arbitrary: s)
  case Nil
  then show ?case by simp
next
  case (Cons did dids)
  from Cons.prems(2) obtain s1 where s1:
    "insert_select True ''spectra_databases'' ''spectra_databases''
       (\<lambda>r. sql_eq (col r ''id'') did) s = Inr s1"
    "copy_databases_by_id dids s1 = Inr s'"
    by (auto simp add: and_then_Inr_iff)
  have sh: "shaped d s1"
    using safe_shaped [OF insert_select_safe [OF Cons.prems(1) in_tables_to_copy(1)] s1(1)]
    by simp
  have one: "set (rows_of s1 ''spectra_databases'') =
      set (rows_of s ''spectra_databases'') \<union> {r \<in> set (rows st). sql_eq (col r ''id'') did}"
    by (rule insert_select_ignore_set
        [OF Cons.prems(1) in_tables_to_copy(1) s1(1) assms(3,4) Cons.prems(3)])
  then have sub: "set (rows_of s1 ''spectra_databases'') \<subseteq> set (rows st)"
    using Cons.prems(3) by auto
  from Cons.IH [OF sh s1(2) sub] one show ?case
    by auto
qed

lemma shaped_quiet: "shaped d s \<Longrightarrow> quiet s s' \<Longrightarrow> src_db s' = Some d"
  by (simp add: shaped_def quiet_def)

lemma select_database_ids_shaped:
  assumes "shaped d s" "select_database_ids s = Inr dids"
  shows "\<exists>comps. d ''compounds'' = Some comps \<and>
     set dids = {col r ''database_id'' | r. r \<in> set (rows comps) \<and> is_target r \<and>
        col r ''database_id'' \<noteq> SqlNull}"
  using assms(2)
  by (auto simp add: select_database_ids_def shaped_src_table [OF assms(1)]
      split: option.splits)

lemma copy_spectra_databases_steps:
  assumes "shaped d s" "copy_spectra_databases s = Inr s'"
  obtains s1 dids where
    "insert_select True ''spectra_databases'' ''spectra_databases''
       (\<lambda>r. sql_eq (col r ''name'') (SqlText TARGET_DATABASE_NAME)) s = Inr s1"
    "shaped d s1" "select_database_ids s1 = Inr dids" "copy_databases_by_id dids s1 = Inr s'"
proof -
  from assms(2) obtain s1 dids where s1:
    "insert_select True ''spectra_databases'' ''spectra_databases''
       (\<lambda>r. sql_eq (col r ''name'') (SqlText TARGET_DATABASE_NAME)) s = Inr s1"
    "select_database_ids s1 = Inr dids" "copy_databases_by_id dids s1 = Inr s'"
    by (auto simp add: copy_spectra_databases_def and_then_Inr_iff query_Inr_iff)
  have "shaped d s1"
    using safe_shaped [OF insert_select_safe [OF assms(1) in_tables_to_copy(1)] s1(1)]
    by simp
  with s1 that show ?thesis by blast
qed

lemma copy_spectra_databases_frame:
  assumes "shaped d s" "copy_spectra_databases s = Inr s'"
  shows "\<forall>m. m \<noteq> ''spectra_databases'' \<longrightarrow> rows_of s' m = rows_of s m"
proof -
  from copy_spectra_databases_steps [OF assms] obtain s1 dids where s1:
    "insert_select True ''spectra_databases'' ''spectra_databases''
       (\<lambda>r. sql_eq (col r ''name'') (SqlText TARGET_DATABASE_NAME)) s = Inr s1"
    "shaped d s1" "select_database_ids s1 = Inr dids" "copy_databases_by_id dids s1 = Inr s'"
    by blast
  from insert_select_rows [OF assms(1) in_tables_to_copy(1) s1(1)]
    copy_databases_by_id_frame [OF s1(2,4)]
  show ?thesis by auto
qed

lemma copy_spectra_databases_rows:
  assumes "shaped d s" "copy_spectra_databases s = Inr s'"
    "d ''spectra_databases'' = Some st" "consistent (uniques st) (rows st)"
    "rows_of s ''spectra_databases'' = []"
  shows "\<exists>comps. d ''compounds'' = Some comps \<and>
     set (rows_of s' ''spectra_databases'') =
       {b \<in> set (rows st). sql_eq (col b ''name'') (SqlText TARGET_DATABASE_NAME) \<or>
          (\<exists>c\<in>set (rows comps). is_target c \<and> sql_eq (col b ''id'') (col c ''database_id''))}"
proof -
  from copy_spectra_databases_steps [OF assms(1,2)] obtain s1 dids where s1:
    "insert_select True ''spectra_databases'' ''spectra_databases''
       (\<lambda>r. sql_eq (col r ''name'') (SqlText TARGET_DATABASE_NAME)) s = Inr s1"
    "shaped d s1" "select_database_ids s1 = Inr dids" "copy_databases_by_id dids s1 = Inr s'"
    by blast
  have one: "set (rows_of s1 ''spectra_databases'') =
      {b \<in> set (rows st). sql_eq (col b ''name'') (SqlText TARGET_DATABASE_NAME)}"
    using insert_select_ignore_set [OF assms(1) in_tables_to_copy(1) s1(1) assms(3,4)] assms(5)
    by simp
  then have sub: "set (rows_of s1 ''spectra_databases'') \<subseteq> set (rows st)"
    by auto
  from select_database_ids_shaped [OF s1(2,3)] obtain comps where comps:
    "d ''compounds'' = Some comps"
    "set dids = {col r ''database_id'' | r. r \<in> set (rows comps) \<and> is_target r \<and>
        col r ''database_id'' \<noteq> SqlNull}"
    by blast
  have "(\<exists>did\<in>set dids. sql_eq (col b ''id'') did) \<longleftrightarrow>
      (\<exists>c\<in>set (rows comps). is_target c \<and> sql_eq (col b ''id'') (col c ''database_id''))" for b
    unfolding comps(2) by (auto simp add: sql_eq_def)
  with copy_databases_by_id_rows [OF s1(2,4) assms(3,4) sub] one comps(1) show ?thesis
    by auto
qed

subsection \<open>The whole data copy\<close>

lemma distinct_linked_tables: "distinct linked_tables"
  by (simp add: linked_tables_def)

lemma linked_subset: "set linked_tables \<subseteq> set tables_to_copy"
  by (auto simp add: linked_in_tables_to_copy)

lemma copy_data_steps:
  assumes "shaped d s" "copy_data ids s = Inr s'"
  obtains s1 s2 s3 s4 s5 s6 where
    "copy_spectra_databases s = Inr s1" "shaped d s1"
    "copy_categories ids s1 = Inr s2" "shaped d s2"
    "copy_solar_spectra s2 = Inr s3" "shaped d s3"
    "copy_compounds ids s3 = Inr s4" "shaped d s4"
    "copy_linked_tables ids linked_tables s4 = Inr s5" "shaped d s5"
    "copy_linked ids ''compounds_absorptions_backup'' s5 = Inr s6" "shaped d s6"
    "copy_linked ids ''compounds_emissions_backup'' s6 = Inr s'"
proof -
  from assms(2) obtain s1 s2 s3 s4 s5 s6 where st:
    "copy_spectra_databases s = Inr s1"
    "copy_categories ids s1 = Inr s2"
    "copy_solar_spectra s2 = Inr s3"
    "copy_compounds ids s3 = Inr s4"
    "copy_linked_tables ids linked_tables s4 = Inr s5"
    "copy_linked ids ''compounds_absorptions_backup'' s5 = Inr s6"
    "copy_linked ids ''compounds_emissions_backup'' s6 = Inr s'"
    unfolding copy_data_def and_then_Inr_iff by blast
  have 1: "shaped d s1"
    using safe_shaped [OF copy_spectra_databases_safe [OF assms(1)] st(1)] by simp
  have 2: "shaped d s2"
    using safe_shaped [OF copy_categories_safe [OF 1] st(2)] by simp
  have 3: "shaped d s3"
    using safe_shaped [OF copy_solar_spectra_safe [OF 2] st(3)] by simp
  have 4: "shaped d s4"
    using safe_shaped [OF copy_compounds_safe [OF 3] st(4)] by simp
  have 5: "shaped d s5"
    using safe_shaped [OF copy_linked_tables_safe [OF 4 linked_subset] st(5)] by simp
  have 6: "shaped d s6"
    using safe_shaped [OF copy_linked_safe [OF 5 in_tables_to_copy(4)] st(6)] by simp
  from that [OF st(1) 1 st(2) 2 st(3) 3 st(4) 4 st(5) 5 st(6) 6 st(7)] show ?thesis .
qed

lemma copy_data_txn:
  assumes "shaped d s" "copy_data ids s = Inr s'"
  shows "in_transaction s'"
  using copy_data_steps [OF assms] copy_linked_txn by metis

lemma copy_data_filled:
  assumes "shaped d s" "\<forall>n. rows_of s n = []" "copy_data ids s = Inr s'"
  shows "filled d ids s'"
proof -
  from copy_data_steps [OF assms(1,3)] obtain s1 s2 s3 s4 s5 s6 where st:
    "copy_spectra_databases s = Inr s1" "shaped d s1"
    "copy_categories ids s1 = Inr s2" "shaped d s2"
    "copy_solar_spectra s2 = Inr s3" "shaped d s3"
    "copy_compounds ids s3 = Inr s4" "shaped d s4"
    "copy_linked_tables ids linked_tables s4 = Inr s5" "shaped d s5"
    "copy_linked ids ''compounds_absorptions_backup'' s5 = Inr s6" "shaped d s6"
    "copy_linked ids ''compounds_emissions_backup'' s6 = Inr s'"
    by blast
  note f1 = copy_spectra_databases_frame [OF assms(1) st(1)]
  from copy_categories_rows [OF st(2,3)] obtain cats comps where c2:
    "d ''common_compound_categories'' = Some cats" "d ''compounds'' = Some comps"
    "insert_rows True (uniques cats) (rows_of s1 ''common_compound_categories'')
        (join_categories ids (rows cats) (rows comps)) =
        Inr (rows_of s2 ''common_compound_categories'')"
    and f2: "\<forall>m. m \<noteq> ''common_compound_categories'' \<longrightarrow> rows_of s2 m = rows_of s1 m"
    by blast
  from copy_solar_spectra_rows [OF st(4,5)] obtain solar where c3:
    "d ''solar_spectra'' = Some solar"
    "insert_rows True (uniques solar) (rows_of s2 ''solar_spectra'') (rows solar) =
        Inr (rows_of s3 ''solar_spectra'')"
    and f3: "\<forall>m. m \<noteq> ''solar_spectra'' \<longrightarrow> rows_of s3 m = rows_of s2 m"
    by blast
  from copy_compounds_rows [OF st(6,7)] c2(2) have c4:
    "rows_of s4 ''compounds'' =
        rows_of s3 ''compounds'' @ filter (\<lambda>r. sql_in (col r ''id'') ids) (rows comps)"
    and f4: "\<forall>m. m \<noteq> ''compounds'' \<longrightarrow> rows_of s4 m = rows_of s3 m"
    by auto
  from copy_linked_tables_rows [OF st(8) distinct_linked_tables linked_subset st(9)] have c5:
    "\<forall>n\<in>set linked_tables. \<exists>t. d n = Some t \<and>
      rows_of s5 n = rows_of s4 n @ filter (\<lambda>r. sql_in (col r ''compound_id'') ids) (rows t)"
    and f5: "\<forall>m. m \<notin> set linked_tables \<longrightarrow> rows_of s5 m = rows_of s4 m"
    by blast+
  from copy_linked_rows [OF st(10) in_tables_to_copy(4) st(11)] obtain t6 where c6:
    "d ''compounds_absorptions_backup'' = Some t6"
    "rows_of s6 ''compounds_absorptions_backup'' =
       rows_of s5 ''compounds_absorptions_backup'' @
       filter (\<lambda>r. sql_in (col r ''compound_id'') ids) (rows t6)"
    and f6: "\<forall>m. m \<noteq> ''compounds_absorptions_backup'' \<longrightarrow> rows_of s6 m = rows_of s5 m"
    by blast
  from copy_linked_rows [OF st(12) in_tables_to_copy(7) st(13)] obtain t7 where c7:
    "d ''compounds_emissions_backup'' = Some t7"
    "rows_of s' ''compounds_emissions_backup'' =
       rows_of s6 ''compounds_emissions_backup'' @
       filter (\<lambda>r. sql_in (col r ''compound_id'') ids) (rows t7)"
    and f7: "\<forall>m. m \<noteq> ''compounds_emissions_backup'' \<longrightarrow> rows_of s' m = rows_of s6 m"
    by blast
  have nl: "''compounds'' \<notin> set linked_tables" "''common_compound_categories'' \<notin> set linked_tables"
    "''spectra_databases'' \<notin> set linked_tables" "''solar_spectra'' \<notin> set linked_tables"
    "''compounds_absorptions_backup'' \<notin> set linked_tables"
    "''compounds_emissions_backup'' \<notin> set linked_tables"
    by (simp_all add: linked_tables_def)
  have compounds: "rows_of s' ''compounds'' = filter (\<lambda>r. sql_in (col r ''id'') ids) (rows comps)"
    using c4 f1 f2 f3 f5 f6 f7 nl(1) assms(2) by simp
  have cats: "insert_rows True (uniques cats) [] (join_categories ids (rows cats) (rows comps)) =
      Inr (rows_of s' ''common_compound_categories'')"
    using c2(3) f1 f3 f4 f5 f6 f7 nl(2) assms(2) by simp
  have solar: "insert_rows True (uniques solar) [] (rows solar) = Inr (rows_of s' ''solar_spectra'')"
    using c3(2) f1 f2 f4 f5 f6 f7 nl(4) assms(2) by simp
  have sp_same: "rows_of s' ''spectra_databases'' = rows_of s1 ''spectra_databases''"
    using f2 f3 f4 f5 f6 f7 nl(3) by simp
  obtain dbs where dbs: "d ''spectra_databases'' = Some dbs"
    using st(1) shaped_src_table [OF assms(1), of "''spectra_databases''"]
    by (cases "d ''spectra_databases''")
      (auto simp add: copy_spectra_databases_def insert_select_def)
  have spectra: "set (rows_of s' ''spectra_databases'') =
      {b \<in> set (rows dbs). sql_eq (col b ''name'') (SqlText TARGET_DATABASE_NAME) \<or>
         (\<exists>c\<in>set (rows comps). is_target c \<and> sql_eq (col b ''id'') (col c ''database_id''))}"
    if "consistent (uniques dbs) (rows dbs)"
    using copy_spectra_databases_rows [OF assms(1) st(1) dbs that] assms(2) c2(2) sp_same
    by simp
  have linked: "\<exists>t. d n = Some t \<and>
      rows_of s' n = filter (\<lambda>r. sql_in (col r ''compound_id'') ids) (rows t)"
    if n: "n \<in> set linked_tables \<union> {''compounds_absorptions_backup'', ''compounds_emissions_backup''}"
    for n
  proof -
    consider "n \<in> set linked_tables" | "n = ''compounds_absorptions_backup''"
      | "n = ''compounds_emissions_backup''"
      using n by auto
    then show ?thesis
    proof cases
      case 1
      then have ne: "n \<noteq> ''compounds_absorptions_backup''" "n \<noteq> ''compounds_emissions_backup''"
        "n \<noteq> ''compounds''" "n \<noteq> ''solar_spectra''" "n \<noteq> ''common_compound_categories''"
        "n \<noteq> ''spectra_databases''"
        using nl by auto
      from c5 1 obtain t where t: "d n = Some t"
        "rows_of s5 n = rows_of s4 n @ filter (\<lambda>r. sql_in (col r ''compound_id'') ids) (rows t)"
        by blast
      have "rows_of s4 n = []"
        using f1 f2 f3 f4 ne assms(2) by simp
      moreover have "rows_of s' n = rows_of s5 n"
        using f6 f7 ne by simp
      ultimately show ?thesis
        using t by simp
    next
      case 2
      have "rows_of s5 ''compounds_absorptions_backup'' = []"
        using f1 f2 f3 f4 f5 nl(5) assms(2) by simp
      then show ?thesis
        using 2 c6 f7 by simp
    next
      case 3
      have "rows_of s6 ''compounds_emissions_backup'' = []"
        using f1 f2 f3 f4 f5 f6 nl(6) assms(2) by simp
      then show ?thesis
        using 3 c7 by simp
    qed
  qed
  show ?thesis
    unfolding filled_def
    using c2(1,2) c3(1) dbs compounds cats solar spectra linked by blast
qed

lemma fresh_connection:
  "connect_output (if output_file w \<noteq> None then w\<lparr>output_file := None\<rparr> else w) =
   connect_output (w\<lparr>output_file := None\<rparr>)"
  by (simp add: connect_output_def)

lemma attach_fresh:
  assumes "source_file w = Some d"
  shows "attach (connect_output (w\<lparr>output_file := None\<rparr>)) = Inr (attached w d)"
  using assms by (simp add: attach_def connect_output_def attached_def open_file_def)

lemma select_compound_ids_attached:
  "select_compound_ids (attached w d) =
     (case d ''compounds'' of None \<Rightarrow> Inl OperationalError | Some t \<Rightarrow> Inr (selected_ids d))"
  by (simp add: select_compound_ids_def src_table_def attached_def selected_ids_def
      split: option.splits)

lemma close_attached: "source_file w = Some d \<Longrightarrow> close (attached w d) = w\<lparr>output_file := Some Map.empty\<rparr>"
  by (cases w) (simp add: close_def attached_def)

lemma close_print [simp]: "close (print m s) = close s"
  by (simp add: close_def print_def)

lemma stdout_print [simp]: "stdout (print m s) = stdout s @ [m]"
  by (simp add: print_def)

lemma copy_schemas_staged:
  "copy_schemas d tables_to_copy
     ((attached w d)\<lparr>stdout := [Found (length (selected_ids d))]\<rparr>) = Inr (staged w d)"
proof -
  let ?s = "(attached w d)\<lparr>stdout := [Found (length (selected_ids d))]\<rparr>"
  have sy: "synced d ?s"
    by (simp add: synced_def attached_def)
  have di: "distinct tables_to_copy"
    by (simp add: tables_to_copy_def)
  have em: "main_db ?s = blank_copy d {}"
    by (simp add: attached_def blank_copy_def)
  from copy_schemas_synced [OF sy di _ em]
  obtain s' where s': "copy_schemas d tables_to_copy ?s = Inr s'" "synced d s'" "same_frame ?s s'"
    "main_db s' = blank_copy d (set tables_to_copy)"
    by auto
  have "s' = staged w d"
    using s'(2,3,4)
    by (intro state.equality) (simp_all add: staged_def synced_def same_frame_def attached_def)
  with s'(1) show ?thesis by simp
qed

lemma extraction_attached:
  assumes "source_file w = Some d"
  shows "extraction (connect_output (w\<lparr>output_file := None\<rparr>)) =
     (case d ''compounds'' of
        None \<Rightarrow> Inl (OperationalError, attached w d)
      | Some t \<Rightarrow>
          if selected_ids d = [] then Inr (print NoCompoundsFound (attached w d))
          else
            and_then (copy_data (selected_ids d) (staged w d)) (\<lambda>s.
            and_then (detach (commit s)) (\<lambda>s.
            summary (print Written s))))"
proof -
  have cs: "connect_source (print (Found (length (selected_ids d))) (attached w d)) =
      ((attached w d)\<lparr>stdout := [Found (length (selected_ids d))]\<rparr>, d)"
    by (simp add: connect_source_def print_def attached_def open_file_def)
  show ?thesis
    unfolding extraction_def attach_fresh [OF assms] and_then_Inr query_def
      select_compound_ids_attached
    by (simp add: cs copy_schemas_staged split: option.splits)
qed

lemma shaped_staged: "shaped d (staged w d)"
  by (simp add: shaped_def staged_def blank_copy_def option.map_comp comp_def)

lemma rows_of_staged: "rows_of (staged w d) n = []"
  by (simp add: rows_of_def table_rows_def staged_def blank_copy_def split: option.splits)

lemma main_no_source:
  "source_file w = None \<Longrightarrow> main w = (Returned, [SourceNotFound], w)"
  by (simp add: main_def)

lemma main_with_source:
  assumes "source_file w = Some d"
  shows "main w =
     (case extraction (connect_output (w\<lparr>output_file := None\<rparr>)) of
        Inl (e, s) \<Rightarrow> (Raised e, stdout s, close s)
      | Inr s \<Rightarrow> (Returned, stdout s, close s))"
  unfolding main_def fresh_connection using assms by simp

lemma main_no_table:
  assumes "source_file w = Some d" "d ''compounds'' = None"
  shows "main w = (Raised OperationalError, [], w\<lparr>output_file := Some Map.empty\<rparr>)"
  unfolding main_with_source [OF assms(1)] extraction_attached [OF assms(1)]
  using assms by (simp add: close_attached) (simp add: attached_def)

lemma main_empty_selection:
  assumes "source_file w = Some d" "d ''compounds'' = Some t" "selected_ids d = []"
  shows "main w = (Returned, [NoCompoundsFound], w\<lparr>output_file := Some Map.empty\<rparr>)"
  unfolding main_with_source [OF assms(1)] extraction_attached [OF assms(1)]
  using assms by (simp add: close_attached) (simp add: attached_def)

lemma close_quiet_staged:
  assumes "source_file w = Some d" "quiet (staged w d) s"
  shows "close s = w\<lparr>output_file := Some (blank_copy d (set tables_to_copy))\<rparr>"
    and "stdout s = [Found (length (selected_ids d))]"
  using assms by (cases w; simp add: close_def quiet_def staged_def)+

lemma count_rows_main:
  "main_db s n = Some t \<Longrightarrow> count_rows n s = Inr (length (rows_of s n))"
  by (simp add: count_rows_def resolve_def rows_of_def table_rows_def)

lemma finish_run:
  assumes "source_file w = Some d" "shaped d s" "quiet (staged w d) s" "in_transaction s"
    "main_db s ''compounds'' \<noteq> None" "main_db s ''compounds_absorptions'' \<noteq> None"
    "main_db s ''compounds_emissions'' \<noteq> None"
  shows "\<exists>s'. and_then (detach (commit s)) (\<lambda>s. summary (print Written s)) = Inr s' \<and>
     close s' = w\<lparr>output_file := Some (main_db s)\<rparr> \<and>
     stdout s' = [Found (length (selected_ids d)), Written,
       Summary (length (rows_of s ''compounds'')) (length (rows_of s ''compounds_absorptions''))
         (length (rows_of s ''compounds_emissions''))]"
proof -
  let ?c = "print Written
    (s\<lparr>output_file := Some (main_db s), source_file := Some d, in_transaction := False,
       src_db := None\<rparr>)"
  have src: "src_db s = Some d"
    using assms(2) by (simp add: shaped_def)
  have det: "detach (commit s) =
      Inr (s\<lparr>output_file := Some (main_db s), source_file := Some d, in_transaction := False,
        src_db := None\<rparr>)"
    using assms(4) src by (simp add: commit_def write_files_def detach_def)
  have m: "main_db ?c = main_db s"
    by (simp add: print_def)
  have r: "rows_of ?c n = rows_of s n" for n
    by (simp add: rows_of_def m)
  obtain t1 t2 t3 where t: "main_db ?c ''compounds'' = Some t1"
    "main_db ?c ''compounds_absorptions'' = Some t2" "main_db ?c ''compounds_emissions'' = Some t3"
    using assms(5,6,7) unfolding m by blast
  have su: "summary ?c = Inr (print (Summary (length (rows_of s ''compounds''))
      (length (rows_of s ''compounds_absorptions'')) (length (rows_of s ''compounds_emissions''))) ?c)"
    unfolding summary_def query_def
    by (simp add: count_rows_main [OF t(1)] count_rows_main [OF t(2)] count_rows_main [OF t(3)] r)
  have cl: "close ?c = w\<lparr>output_file := Some (main_db s)\<rparr>"
    using assms(1,3) by (cases w) (simp add: close_def print_def quiet_def staged_def)
  have so: "stdout ?c = [Found (length (selected_ids d)), Written]"
    using assms(3) by (simp add: print_def quiet_def staged_def)
  show ?thesis
    unfolding det and_then_Inr su using cl so by simp
qed

lemma filled_tables:
  assumes "shaped d s" "filled d ids s"
  shows "main_db s ''compounds'' \<noteq> None" "main_db s ''compounds_absorptions'' \<noteq> None"
    "main_db s ''compounds_emissions'' \<noteq> None"
proof -
  have l: "''compounds_absorptions'' \<in> set linked_tables" "''compounds_emissions'' \<in> set linked_tables"
    by (simp_all add: linked_tables_def)
  have "d ''compounds'' \<noteq> None" "d ''compounds_absorptions'' \<noteq> None"
    "d ''compounds_emissions'' \<noteq> None"
    using assms(2) l unfolding filled_def by auto
  then show "main_db s ''compounds'' \<noteq> None" "main_db s ''compounds_absorptions'' \<noteq> None"
    "main_db s ''compounds_emissions'' \<noteq> None"
    using shaped_main(1) [OF assms(1)] by simp_all
qed

text \<open>Every run with a source and a selection: either the data copy raises and the
  output holds the empty tables, or it ends well and the output is what the connection
  held at the commit.\<close>

lemma main_copy:
  assumes "source_file w = Some d" "d ''compounds'' = Some t" "selected_ids d \<noteq> []"
  shows "(\<exists>e s. copy_data (selected_ids d) (staged w d) = Inl (e, s) \<and>
       main w = (Raised e, [Found (length (selected_ids d))],
         w\<lparr>output_file := Some (blank_copy d (set tables_to_copy))\<rparr>)) \<or>
     (\<exists>s. copy_data (selected_ids d) (staged w d) = Inr s \<and> shaped d s \<and>
       filled d (selected_ids d) s \<and>
       main w = (Returned,
         [Found (length (selected_ids d)), Written,
          Summary (length (rows_of s ''compounds'')) (length (rows_of s ''compounds_absorptions''))
            (length (rows_of s ''compounds_emissions''))],
         w\<lparr>output_file := Some (main_db s)\<rparr>))"
proof (cases "copy_data (selected_ids d) (staged w d)")
  case (Inl x)
  obtain e s where x: "x = (e, s)"
    by (cases x)
  have "quiet (staged w d) s"
    using copy_data_safe [OF shaped_staged, of d w "selected_ids d"] Inl x
    by (simp add: safe_Inl)
  from close_quiet_staged [OF assms(1) this] show ?thesis
    unfolding main_with_source [OF assms(1)] extraction_attached [OF assms(1)]
    using assms(2,3) Inl x by simp
next
  case (Inr s)
  have sq: "shaped d s" "quiet (staged w d) s"
    using safe_shaped [OF copy_data_safe [OF shaped_staged] Inr] by simp_all
  have tx: "in_transaction s"
    by (rule copy_data_txn [OF shaped_staged Inr])
  have fi: "filled d (selected_ids d) s"
    by (rule copy_data_filled [OF shaped_staged _ Inr]) (simp add: rows_of_staged)
  from finish_run [OF assms(1) sq tx filled_tables [OF sq(1) fi]]
  obtain s' where s': "and_then (detach (commit s)) (\<lambda>s. summary (print Written s)) = Inr s'"
    "close s' = w\<lparr>output_file := Some (main_db s)\<rparr>"
    "stdout s' = [Found (length (selected_ids d)), Written,
       Summary (length (rows_of s ''compounds'')) (length (rows_of s ''compounds_absorptions''))
         (length (rows_of s ''compounds_emissions''))]"
    by blast
  have "main w = (Returned, stdout s', close s')"
    unfolding main_with_source [OF assms(1)] extraction_attached [OF assms(1)]
    using assms(2,3) Inr s'(1) by simp
  with s'(2,3) sq(1) fi Inr show ?thesis
    by simp
qed

subsection \<open>Runs as a whole\<close>



lemma selected_ids_empty:
  assumes "d ''compounds'' = Some t"
  shows "selected_ids d = [] \<longleftrightarrow>
     (\<forall>r\<in>set (rows t). col r ''database_name'' \<noteq> SqlText ''Common Compounds'')"
  using assms
  by (auto simp add: selected_ids_def is_target_def sql_eq_def TARGET_DATABASE_NAME_def
      filter_empty_conv)

text \<open>Whatever happens, a run changes nothing but the output file.\<close>

lemma main_world: "\<exists>out msgs X. main w = (out, msgs, w\<lparr>output_file := X\<rparr>)"
proof (cases "source_file w")
  case None
  have "w = w\<lparr>output_file := output_file w\<rparr>"
    by simp
  with main_no_source [OF None] show ?thesis
    by metis
next
  case (Some d)
  show ?thesis
  proof (cases "d ''compounds''")
    case None
    from main_no_table [OF Some None] show ?thesis by blast
  next
    case t: (Some t)
    show ?thesis
    proof (cases "selected_ids d = []")
      case True
      from main_empty_selection [OF Some t True] show ?thesis by blast
    next
      case False
      from main_copy [OF Some t False] show ?thesis by blast
    qed
  qed
qed




lemma main_ignores_output:
  assumes "source_file w = Some d"
  shows "main (w\<lparr>output_file := X\<rparr>) = main w"
proof -
  have "source_file (w\<lparr>output_file := X\<rparr>) = Some d"
    using assms by simp
  from main_with_source [OF this] main_with_source [OF assms] show ?thesis
    by simp
qed







lemma main_triple: "main w = (fst (main w), fst (snd (main w)), snd (snd (main w)))"
  by simp

section \<open>The properties of the specification\<close>












text \<open>
Claim C6. When there is no source file, \<^verbatim>\<open>main\<close> returns at once and normally, having
  printed that the source was not found: no output file is created, and an output file
  already there is neither deleted nor changed.
\<close>

theorem missing_source:
  assumes "source_file w = None"
  shows "main w = (Returned, [SourceNotFound], w)"
  using assms by (rule main_no_source)

theorem missing_source_witness:
  "main no_source_world = (Returned, [SourceNotFound], no_source_world)"
  using missing_source [of no_source_world] by (simp add: no_source_world_def)

text \<open>
Claim C7. When the source has a table \<^verbatim>\<open>compounds\<close> but no row of it has the
  \<^verbatim>\<open>database_name\<close> "Common Compounds", \<^verbatim>\<open>main\<close> returns normally after printing that
  no compounds were found. No schema and no data are copied: whatever output file was
  there is replaced by an empty database, and the source is as before.
\<close>

theorem empty_selection:
  assumes "source_file w = Some d" "d ''compounds'' = Some t"
    and "\<forall>r\<in>set (rows t). col r ''database_name'' \<noteq> SqlText ''Common Compounds''"
  shows "main w = (Returned, [NoCompoundsFound], w\<lparr>output_file := Some Map.empty\<rparr>)"
proof -
  have "selected_ids d = []"
    using selected_ids_empty [of d t] assms(2,3) by simp
  from main_empty_selection [OF assms(1,2) this] show ?thesis .
qed

theorem empty_selection_witness:
  "main unselected_world =
     (Returned, [NoCompoundsFound], unselected_world\<lparr>output_file := Some Map.empty\<rparr>)"
proof -
  let ?t = "plain_table [[''id'']]
        [[(''id'', SqlText ''c2''), (''database_name'', SqlText ''Other''),
          (''database_id'', SqlInt 2), (''category_id'', SqlInt 11)],
         [(''id'', SqlText ''c4''), (''database_name'', SqlNull),
          (''database_id'', SqlNull), (''category_id'', SqlNull)]]"
  have s: "source_file unselected_world = Some unselected_source"
    by (simp add: unselected_world_def)
  have t: "unselected_source ''compounds'' = Some ?t"
    by (simp add: unselected_source_def)
  have n: "\<forall>r\<in>set (rows ?t). col r ''database_name'' \<noteq> SqlText ''Common Compounds''"
    by (simp add: plain_table_def col_def)
  from empty_selection [OF s t n] show ?thesis .
qed



text \<open>
Claim C9. Running the extraction again on what the first run left (the source is
  unchanged by claim C10) ends in the same way, prints the same counts and leaves the
  same files: in particular the output has the same schema and the same rows, table by
  table.
\<close>

theorem rerun_is_idempotent:
  assumes "main w = (out, msgs, w1)"
  shows "main w1 = (out, msgs, w1)"
proof (cases "source_file w")
  case None
  from main_no_source [OF None] assms show ?thesis by simp
next
  case (Some d)
  from main_world [of w] assms obtain X where "w1 = w\<lparr>output_file := X\<rparr>"
    by auto
  with main_ignores_output [OF Some, of X] assms show ?thesis
    by simp
qed

theorem rerun_is_idempotent_witness:
  "main (snd (snd (main sample_world))) = main sample_world"
  using rerun_is_idempotent [OF main_triple, of sample_world] by simp



end
